theory Spec2Isabelle
  imports Complex_Main "HOL-Library.Char_ord" "HOL-Library.While_Combinator"
begin

section \<open>Strings and errors\<close>

text \<open>
  A Go \<^verbatim>\<open>string\<close> and a \<^verbatim>\<open>[]byte\<close> are byte sequences: both are modelled by
  \<^typ>\<open>string\<close> (a list of 8-bit characters).
\<close>

text \<open>\<^verbatim>\<open>strings.HasPrefix(s, prefix)\<close>: \<^verbatim>\<open>len(s) >= len(prefix) && s[:len(prefix)] == prefix\<close>.\<close>

definition HasPrefix :: "string \<Rightarrow> string \<Rightarrow> bool" where
  "HasPrefix s pre = (length pre \<le> length s \<and> take (length pre) s = pre)"

text \<open>
  The package-level error values of \<^verbatim>\<open>types.go\<close> and of the client file, and the two
  ways the code builds further errors: \<^verbatim>\<open>fmt.Errorf\<close> with a \<^verbatim>\<open>%w\<close> verb (\<open>Errorf\<close>
  keeps the format string and the wrapped error; the rendered message text is not
  modelled), and errors handed over by the standard library (\<open>LibErr\<close>, named by a
  description).
\<close>

datatype error =
    ErrAuthenticationFailed
  | ErrInvalidStatusCode
  | ErrNoParams
  | ErrInvalidSignature
  | ErrCannotUnmarshalFlexInt
  | ErrCannotUnmarshalFlexString
  | LibErr string
  | Errorf string error

text \<open>\<^verbatim>\<open>errors.Is(err, target)\<close> for these values: walk the \<^verbatim>\<open>%w\<close> chain.\<close>

fun errors_Is :: "error \<Rightarrow> error \<Rightarrow> bool" where
  "errors_Is (Errorf fmt e) target = (Errorf fmt e = target \<or> errors_Is e target)"
| "errors_Is e target = (e = target)"

section \<open>The session and the path resolver\<close>

text \<open>
  The fields of \<^verbatim>\<open>Unifi\<close> that the functions below read or write. The embedded
  \<^verbatim>\<open>*http.Client\<close>, \<^verbatim>\<open>*Config\<close> and \<^verbatim>\<open>*ServerStatus\<close> are left out: the transport
  is a parameter of \<open>do\<close>.
\<close>

record Unifi =
  csrf :: string
  fingerprints :: "string list"
  new :: bool

definition APILoginPath :: string where "APILoginPath = ''/api/login''"
definition APILoginPathNew :: string where "APILoginPathNew = ''/api/auth/login''"
definition APIPrefixNew :: string where "APIPrefixNew = ''/proxy/protect''"

text \<open>\<^verbatim>\<open>func (u *Unifi) path(path string) string\<close>, the same in \<^verbatim>\<open>types.go\<close> and \<^verbatim>\<open>protect/types.go\<close>.\<close>

definition path :: "Unifi \<Rightarrow> string \<Rightarrow> string" where
  "path u p =
     (if new u then
        (if p = APILoginPath then APILoginPathNew
         else if \<not> HasPrefix p APIPrefixNew \<and> p \<noteq> APILoginPathNew then APIPrefixNew @ p
         else p)
      else p)"

section \<open>Certificate pinning\<close>

text \<open>\<^verbatim>\<open>func (f fingerprints) Contains(s string) bool\<close>: the loop over the indices of \<^verbatim>\<open>f\<close>.\<close>

fun Contains :: "string list \<Rightarrow> string \<Rightarrow> bool" where
  "Contains [] s = False"
| "Contains (x # f) s = (if s = x then True else Contains f s)"

text \<open>
  \<^verbatim>\<open>fmt.Sprintf("%x", digest)\<close> on a byte array: two lowercase hexadecimal digits for
  each byte, looked up in the digit table of \<^verbatim>\<open>fmt\<close>.
\<close>

definition hex_digit :: "nat \<Rightarrow> char" where
  "hex_digit n = ''0123456789abcdef'' ! n"

definition Sprintf_x :: "string \<Rightarrow> string" where
  "Sprintf_x bs =
     concat (map (\<lambda>b. [hex_digit (of_char b div 16), hex_digit (of_char b mod 16)]) bs)"

text \<open>
  \<^verbatim>\<open>func (u *Unifi) verifyPeerCertificate(certs [][]byte, _ [][]*x509.Certificate) error\<close>.
  The digest \<^verbatim>\<open>sha256.Sum256\<close> of the standard library is the parameter \<open>Sum256\<close>; the
  result \<open>None\<close> is Go's \<^verbatim>\<open>nil\<close> error. \<open>verify_certs\<close> is the \<^verbatim>\<open>for _, cert := range certs\<close>
  loop with the final \<^verbatim>\<open>return ErrInvalidSignature\<close>.
\<close>

fun verify_certs :: "(string \<Rightarrow> string) \<Rightarrow> string list \<Rightarrow> string list \<Rightarrow> error option" where
  "verify_certs Sum256 fps [] = Some ErrInvalidSignature"
| "verify_certs Sum256 fps (cert # certs) =
     (if Contains fps (Sprintf_x (Sum256 cert)) then None
      else verify_certs Sum256 fps certs)"

definition verifyPeerCertificate ::
  "(string \<Rightarrow> string) \<Rightarrow> Unifi \<Rightarrow> string list \<Rightarrow> error option" where
  "verifyPeerCertificate Sum256 u certs =
     (if length (fingerprints u) = 0 then None
      else verify_certs Sum256 (fingerprints u) certs)"

text \<open>
  A stand-in digest for evaluating the verifier on concrete certificates: the first four
  bytes of the certificate. It is not SHA-256; the theorems hold for every digest function.
\<close>

definition prefix_digest :: "string \<Rightarrow> string" where
  "prefix_digest cert = take 4 cert"

section \<open>Requests\<close>

text \<open>
  What \<^verbatim>\<open>do\<close> reads of an \<^verbatim>\<open>*http.Response\<close>: the status code and status line, the
  header lookup \<^verbatim>\<open>resp.Header.Get\<close> (the empty string for an absent header), and the
  outcome of \<^verbatim>\<open>io.ReadAll(resp.Body)\<close>: the bytes read and the read error, if any.
\<close>

record Response =
  StatusCode :: int
  Status :: string
  Header_Get :: "string \<Rightarrow> string"
  ReadAll_Body :: "string \<times> error option"

text \<open>
  \<^verbatim>\<open>func (u *Unifi) do(req *http.Request) ([]byte, error)\<close>. The transport call
  \<^verbatim>\<open>u.Do(req.WithContext(ctx))\<close> is the parameter \<open>Do\<close>: it yields a transport error
  (which includes an expired deadline) or a response. The function returns the pair of
  the body and the error, and the session with its CSRF token updated.
\<close>

definition do ::
  "('req \<Rightarrow> error + Response) \<Rightarrow> Unifi \<Rightarrow> 'req \<Rightarrow> (string \<times> error option) \<times> Unifi" where
  "do Do u req =
     (case Do req of
        Inl err \<Rightarrow> (([], Some (Errorf ''making request: %w'' err)), u)
      | Inr resp \<Rightarrow>
          (case ReadAll_Body resp of
             (body, Some err) \<Rightarrow> ((body, Some (Errorf ''reading response: %w'' err)), u)
           | (body, None) \<Rightarrow>
               (let u' = (if Header_Get resp ''x-csrf-token'' \<noteq> []
                          then u\<lparr>csrf := Header_Get resp ''x-csrf-token''\<rparr> else u);
                    err = (if StatusCode resp \<noteq> 200
                           then Some (Errorf ''%s: %s: %w'' ErrInvalidStatusCode) else None)
                in ((body, err), u'))))"

text \<open>
  Two transports for evaluating \<open>do\<close>: a server answering 503 with a diagnostic body,
  and a server answering 503 whose body stream breaks after seven bytes.
\<close>

definition no_headers :: "string \<Rightarrow> string" where
  "no_headers k = []"

definition unavailable_transport :: "unit \<Rightarrow> error + Response" where
  \<open>unavailable_transport req =
     Inr \<lparr>StatusCode = 503, Status = ''503 Service Unavailable'', Header_Get = no_headers,
          ReadAll_Body = (''{"meta":{"rc":"error"}}'', None)\<rparr>\<close>

definition broken_body_transport :: "unit \<Rightarrow> error + Response" where
  \<open>broken_body_transport req =
     Inr \<lparr>StatusCode = 503, Status = ''503 Service Unavailable'', Header_Get = no_headers,
          ReadAll_Body = (''{"meta"'', Some (LibErr ''unexpected EOF''))\<rparr>\<close>

definition ok_transport :: "unit \<Rightarrow> error + Response" where
  \<open>ok_transport req =
     Inr \<lparr>StatusCode = 200, Status = ''200 OK'', Header_Get = no_headers,
          ReadAll_Body = (''{"data":[]}'', None)\<rparr>\<close>

section \<open>Standard-library functions used by the codecs\<close>

text \<open>
  \<^verbatim>\<open>strings.SplitN(s, sep, n)\<close> for a separator of one byte and \<open>n \<ge> 0\<close>: at most \<open>n\<close>
  pieces, the last one holding the unsplit rest.
\<close>

fun SplitN :: "string \<Rightarrow> char \<Rightarrow> nat \<Rightarrow> string list" where
  "SplitN s sep 0 = []"
| "SplitN s sep (Suc 0) = [s]"
| "SplitN s sep (Suc (Suc n)) =
     (if sep \<in> set s
      then takeWhile (\<lambda>c. c \<noteq> sep) s # SplitN (tl (dropWhile (\<lambda>c. c \<noteq> sep) s)) sep (Suc n)
      else [s])"

text \<open>
  \<^verbatim>\<open>strings.Trim(s, cutset)\<close> for a cutset of one ASCII byte, which the library computes as
  \<^verbatim>\<open>trimLeftByte(trimRightByte(s, c), c)\<close>.
\<close>

definition trimLeftByte :: "string \<Rightarrow> char \<Rightarrow> string" where
  "trimLeftByte s c = dropWhile (\<lambda>x. x = c) s"

definition trimRightByte :: "string \<Rightarrow> char \<Rightarrow> string" where
  "trimRightByte s c = rev (dropWhile (\<lambda>x. x = c) (rev s))"

definition Trim :: "string \<Rightarrow> char \<Rightarrow> string" where
  "Trim s c = trimLeftByte (trimRightByte s c) c"


text \<open>
  \<^verbatim>\<open>strings.EqualFold(s, t)\<close>. The library first walks both strings byte by byte while
  the bytes are ASCII: equal bytes pass, and so does a pair made of an upper-case letter
  and its lower-case form (\<^verbatim>\<open>'A' <= sr && sr <= 'Z' && tr == sr+'a'-'A'\<close> after ordering
  the two bytes). At the first position where either byte is not ASCII
  (\<^verbatim>\<open>sr|tr >= utf8.RuneSelf\<close>) it jumps to the rune loop over the two remaining suffixes,
  which folds with the Unicode tables; that loop is the parameter \<open>hasUnicode\<close>. When one
  string is exhausted the result is \<^verbatim>\<open>len(s) == len(t)\<close>.
\<close>

definition upper_lower_pair :: "char \<Rightarrow> char \<Rightarrow> bool" where
  "upper_lower_pair sr tr =
     (CHR ''A'' \<le> sr \<and> sr \<le> CHR ''Z'' \<and> (of_char tr :: nat) = of_char sr + 32)"

fun EqualFold :: "(string \<Rightarrow> string \<Rightarrow> bool) \<Rightarrow> string \<Rightarrow> string \<Rightarrow> bool" where
  "EqualFold hasUnicode (sr # s) (tr # t) =
     (if (128::nat) \<le> of_char sr \<or> (128::nat) \<le> of_char tr then hasUnicode (sr # s) (tr # t)
      else if tr = sr then EqualFold hasUnicode s t
      else if (if tr < sr then upper_lower_pair tr sr else upper_lower_pair sr tr)
           then EqualFold hasUnicode s t
      else False)"
| "EqualFold hasUnicode s t = (length s = length t)"

text \<open>
  A \<^verbatim>\<open>float64\<close> is a finite number, one of the two infinities, or NaN. A finite value is
  modelled by the real number it denotes: rounding to 53 bits and the sign of zero are
  not modelled. Sums and products involving an infinity or NaN follow IEEE 754.
\<close>

datatype float64 = Finite real | PosInf | NegInf | NaN

fun float64_add :: "float64 \<Rightarrow> float64 \<Rightarrow> float64" where
  "float64_add NaN y = NaN"
| "float64_add x NaN = NaN"
| "float64_add PosInf NegInf = NaN"
| "float64_add NegInf PosInf = NaN"
| "float64_add PosInf y = PosInf"
| "float64_add x PosInf = PosInf"
| "float64_add NegInf y = NegInf"
| "float64_add x NegInf = NegInf"
| "float64_add (Finite a) (Finite b) = Finite (a + b)"

definition float64_sign :: "float64 \<Rightarrow> int" where
  "float64_sign x =
     (case x of
        Finite a \<Rightarrow> (if a = 0 then 0 else if 0 < a then 1 else - 1)
      | PosInf \<Rightarrow> 1 | NegInf \<Rightarrow> - 1 | NaN \<Rightarrow> 0)"

fun float64_mul :: "float64 \<Rightarrow> float64 \<Rightarrow> float64" where
  "float64_mul NaN y = NaN"
| "float64_mul x NaN = NaN"
| "float64_mul (Finite a) (Finite b) = Finite (a * b)"
| "float64_mul x y =
     (if float64_sign x * float64_sign y = 0 then NaN
      else if 0 < float64_sign x * float64_sign y then PosInf else NegInf)"

text \<open>
  \<^verbatim>\<open>json.Unmarshal(b, &unk)\<close> with \<^verbatim>\<open>unk interface{}\<close> yields a \<^verbatim>\<open>float64\<close>, a \<^verbatim>\<open>string\<close>,
  \<^verbatim>\<open>nil\<close>, a \<^verbatim>\<open>bool\<close>, a \<^verbatim>\<open>[]interface{}\<close> or a \<^verbatim>\<open>map[string]interface{}\<close>.
\<close>

datatype any =
    Float64 float64
  | String string
  | Nil
  | Bool bool
  | Slice "any list"
  | Map "(string \<times> any) list"

text \<open>
  The three outcomes of \<^verbatim>\<open>strconv.ParseFloat(s, 64)\<close>. The input is well formed and in
  range: the result is the nearest \<^verbatim>\<open>float64\<close>, or an infinity or NaN when the input
  spells one (\<^verbatim>\<open>Inf\<close>, \<^verbatim>\<open>-Infinity\<close>, \<^verbatim>\<open>NaN\<close>), and the error is \<^verbatim>\<open>nil\<close>. The input is a
  well-formed numeral too large for a \<^verbatim>\<open>float64\<close> (\<^verbatim>\<open>1e999\<close>): the result is the infinity
  of its sign, with the error \<^verbatim>\<open>ErrRange\<close> (\<open>OutOfRange\<close> carries whether the numeral is
  negative). The input is not well formed: the result is 0, with the error
  \<^verbatim>\<open>ErrSyntax\<close>.
\<close>

datatype scan = Parsed float64 | OutOfRange bool | Malformed

text \<open>
  The functions of \<^verbatim>\<open>encoding/json\<close> and \<^verbatim>\<open>strconv\<close> that the codecs call are
  parameters of the model: \<^verbatim>\<open>json.Unmarshal\<close> into an \<^verbatim>\<open>interface{}\<close>, the scanner of
  \<^verbatim>\<open>strconv.ParseFloat(s, 64)\<close>, and \<^verbatim>\<open>strconv.FormatFloat(v, 'f', -1, 64)\<close>.
\<close>

record stdlib =
  json_Unmarshal :: "string \<Rightarrow> error + any"
  scan_float :: "string \<Rightarrow> scan"
  FormatFloat :: "float64 \<Rightarrow> string"

text \<open>\<^verbatim>\<open>strconv.ParseFloat\<close> returns a value and an error, as listed above.\<close>

definition ParseFloat :: "'a stdlib_scheme \<Rightarrow> string \<Rightarrow> float64 \<times> error option" where
  "ParseFloat L s =
     (case scan_float L s of
        Parsed v \<Rightarrow> (v, None)
      | OutOfRange negative \<Rightarrow>
          (if negative then NegInf else PosInf,
           Some (LibErr ''strconv.ParseFloat: value out of range''))
      | Malformed \<Rightarrow> (Finite 0, Some (LibErr ''strconv.ParseFloat: invalid syntax'')))"

section \<open>Flexible scalar codecs\<close>

record FlexString =
  Val :: string
  Arr :: "string list"
  hintIsArray :: bool

record FlexInt =
  Val :: float64
  Txt :: string

record FlexBool =
  Val :: bool
  Txt :: string

record FlexTemp =
  Val :: float64
  Txt :: string

text \<open>
  Each \<^verbatim>\<open>UnmarshalJSON\<close> has a pointer receiver and returns an error: the model takes
  the receiver's value and returns the error (\<open>None\<close> for \<^verbatim>\<open>nil\<close>) with the receiver's new
  value.
\<close>



text \<open>\<^verbatim>\<open>func (f *FlexInt) UnmarshalJSON(b []byte) error\<close>.\<close>

definition FlexInt_UnmarshalJSON ::
  "'a stdlib_scheme \<Rightarrow> FlexInt \<Rightarrow> string \<Rightarrow> error option \<times> FlexInt" where
  "FlexInt_UnmarshalJSON L f b =
     (case json_Unmarshal L b of
        Inl err \<Rightarrow> (Some (Errorf ''json unmarshal: %w'' err), f)
      | Inr unk \<Rightarrow>
          (case unk of
             Float64 i \<Rightarrow> (None, f\<lparr>FlexInt.Val := i, FlexInt.Txt := FormatFloat L i\<rparr>)
           | String i \<Rightarrow> (None, f\<lparr>FlexInt.Txt := i, FlexInt.Val := fst (ParseFloat L i)\<rparr>)
           | Nil \<Rightarrow> (None, f\<lparr>FlexInt.Txt := ''0'', FlexInt.Val := Finite 0\<rparr>)
           | _ \<Rightarrow> (Some (Errorf ''%v: %w'' ErrCannotUnmarshalFlexInt), f)))"

text \<open>
  \<^verbatim>\<open>func (f *FlexBool) UnmarshalJSON(b []byte) error\<close>: the quotes are trimmed off the raw
  bytes, and the text is compared with \<^verbatim>\<open>"1"\<close> by \<^verbatim>\<open>==\<close> and with nine words by
  \<^verbatim>\<open>strings.EqualFold\<close>.
\<close>

definition FlexBool_UnmarshalJSON ::
  "(string \<Rightarrow> string \<Rightarrow> bool) \<Rightarrow> FlexBool \<Rightarrow> string \<Rightarrow> error option \<times> FlexBool" where
  "FlexBool_UnmarshalJSON hasUnicode f b =
     (let txt = Trim b (CHR 0x22);
          val = (txt = ''1'' \<or> EqualFold hasUnicode txt ''true'' \<or> EqualFold hasUnicode txt ''yes'' \<or>
                 EqualFold hasUnicode txt ''t'' \<or> EqualFold hasUnicode txt ''armed'' \<or>
                 EqualFold hasUnicode txt ''active'' \<or> EqualFold hasUnicode txt ''enabled'' \<or>
                 EqualFold hasUnicode txt ''ready'' \<or> EqualFold hasUnicode txt ''up'' \<or>
                 EqualFold hasUnicode txt ''ok'')
      in (None, f\<lparr>FlexBool.Txt := txt, FlexBool.Val := val\<rparr>))"

text \<open>
  \<^verbatim>\<open>func (f *FlexTemp) UnmarshalJSON(b []byte) error\<close>. In the string case the source
  splits \<^verbatim>\<open>string(b)\<close>, the raw bytes of the JSON token, not the decoded string \<^verbatim>\<open>i\<close>.
\<close>

definition FlexTemp_UnmarshalJSON ::
  "'a stdlib_scheme \<Rightarrow> FlexTemp \<Rightarrow> string \<Rightarrow> error option \<times> FlexTemp" where
  "FlexTemp_UnmarshalJSON L f b =
     (case json_Unmarshal L b of
        Inl err \<Rightarrow> (Some (Errorf ''json unmarshal: %w'' err), f)
      | Inr unk \<Rightarrow>
          (case unk of
             Float64 i \<Rightarrow> (None, f\<lparr>FlexTemp.Val := i, FlexTemp.Txt := FormatFloat L i\<rparr>)
           | String i \<Rightarrow>
               (let parts = SplitN b (CHR 0x20) 2
                in if length parts = 2
                   then (None, f\<lparr>FlexTemp.Txt := i, FlexTemp.Val := fst (ParseFloat L (parts ! 0))\<rparr>)
                   else (None, f\<lparr>FlexTemp.Txt := i, FlexTemp.Val := fst (ParseFloat L i)\<rparr>))
           | Nil \<Rightarrow> (None, f\<lparr>FlexTemp.Txt := ''0'', FlexTemp.Val := Finite 0\<rparr>)
           | _ \<Rightarrow> (Some (Errorf ''%v: %w'' ErrCannotUnmarshalFlexInt), f)))"

text \<open>
  \<^verbatim>\<open>func (f *FlexTemp) Fahrenheit() float64 { return (f.Val * (9 / 5)) + 32 }\<close>. In Go
  \<^verbatim>\<open>9 / 5\<close> is a constant expression over two untyped integer constants: the division is
  the integer division, and its result is converted to \<^verbatim>\<open>float64\<close> for the product.
\<close>

definition Fahrenheit :: "FlexTemp \<Rightarrow> float64" where
  "Fahrenheit f =
     float64_add (float64_mul (FlexTemp.Val f) (Finite (real_of_int (9 div 5)))) (Finite 32)"

section \<open>A library instance for evaluation\<close>

text \<open>
  To evaluate the codecs on concrete bytes, the library parameters are instantiated on a
  fragment: JSON documents that are \<^verbatim>\<open>null\<close>, \<^verbatim>\<open>true\<close>, \<^verbatim>\<open>false\<close>, a string without
  escapes, a non-negative whole number, the empty array or the empty object; for
  \<^verbatim>\<open>ParseFloat\<close> the decimal literals with an optional exponent and the spellings of the
  infinities and NaN (hexadecimal literals and digit-separating underscores are outside
  the fragment); the rendering of non-negative whole numbers, infinities and NaN for
  \<^verbatim>\<open>FormatFloat\<close>. The value of a numeral in range is taken exactly, without rounding.
  Outside the fragment the instance does not follow the library.
  The general theorems about the codecs hold for every library; this instance serves
  only to evaluate them on concrete inputs, all inside the fragment.
\<close>

text \<open>
  The rune loop of \<^verbatim>\<open>strings.EqualFold\<close> is not reached on ASCII strings; evaluations on
  such strings pass this stand-in for it.
\<close>

definition no_unicode :: "string \<Rightarrow> string \<Rightarrow> bool" where
  "no_unicode s t = False"

definition is_digit :: "char \<Rightarrow> bool" where
  "is_digit c = (CHR ''0'' \<le> c \<and> c \<le> CHR ''9'')"

definition digits_val :: "string \<Rightarrow> nat" where
  "digits_val ds = foldl (\<lambda>acc c. 10 * acc + (of_char c - 48)) 0 ds"

text \<open>
  The spellings that \<^verbatim>\<open>ParseFloat\<close> reads as an infinity or NaN, compared without regard
  to case: \<^verbatim>\<open>inf\<close> and \<^verbatim>\<open>infinity\<close> with an optional sign, and \<^verbatim>\<open>nan\<close> without sign.
\<close>

definition special_scan :: "string \<Rightarrow> scan option" where
  "special_scan s =
     (if EqualFold no_unicode s ''inf'' \<or> EqualFold no_unicode s ''+inf'' \<or>
         EqualFold no_unicode s ''infinity'' \<or> EqualFold no_unicode s ''+infinity''
        then Some (Parsed PosInf)
      else if EqualFold no_unicode s ''-inf'' \<or> EqualFold no_unicode s ''-infinity''
        then Some (Parsed NegInf)
      else if EqualFold no_unicode s ''nan'' then Some (Parsed NaN)
      else None)"

text \<open>
  A decimal numeral rounds to an infinity, and \<^verbatim>\<open>ParseFloat\<close> reports \<^verbatim>\<open>ErrRange\<close>, from
  the midpoint between the largest \<^verbatim>\<open>float64\<close> and \<open>2 ^ 1024\<close> on.
\<close>

definition float64_overflow :: real where
  "float64_overflow = 2 ^ 1024 - 2 ^ 970"

definition rounds_to_infinity :: "real \<Rightarrow> bool" where
  "rounds_to_infinity v = (float64_overflow \<le> v)"

text \<open>
  Sign, digits with an optional point, at least one digit, and an optional exponent
  \<^verbatim>\<open>e\<close> or \<^verbatim>\<open>E\<close> with an optional sign and at least one digit.
\<close>

definition pow10 :: "nat \<Rightarrow> real" where
  "pow10 n = 10 ^ n"

definition is_exp_char :: "char \<Rightarrow> bool" where
  "is_exp_char c = (c = CHR ''e'' \<or> c = CHR ''E'')"

definition decimal_scan :: "string \<Rightarrow> scan" where
  "decimal_scan s =
     (case special_scan s of
        Some r \<Rightarrow> r
      | None \<Rightarrow>
         (let neg = (s \<noteq> [] \<and> hd s = CHR ''-'');
              r = (if s \<noteq> [] \<and> (hd s = CHR ''-'' \<or> hd s = CHR ''+'') then tl s else s);
              mant = takeWhile (\<lambda>c. \<not> is_exp_char c) r;
              ex = dropWhile (\<lambda>c. \<not> is_exp_char c) r;
              ip = takeWhile (\<lambda>c. c \<noteq> CHR ''.'') mant;
              fp = drop 1 (dropWhile (\<lambda>c. c \<noteq> CHR ''.'') mant);
              eneg = (2 \<le> length ex \<and> ex ! 1 = CHR ''-'');
              ed = (if 2 \<le> length ex \<and> (ex ! 1 = CHR ''-'' \<or> ex ! 1 = CHR ''+'')
                    then drop 2 ex else drop 1 ex);
              m = real (digits_val (ip @ fp)) / 10 ^ length fp;
              v = (if eneg then m / pow10 (digits_val ed) else m * pow10 (digits_val ed))
          in if ip @ fp \<noteq> [] \<and> list_all is_digit (ip @ fp) \<and>
                (ex = [] \<or> (ed \<noteq> [] \<and> list_all is_digit ed))
             then (if rounds_to_infinity v then OutOfRange neg
                   else Parsed (Finite (if neg then - v else v)))
             else Malformed))"

text \<open>A JSON number that is a non-negative whole number: \<^verbatim>\<open>0|[1-9][0-9]*\<close>.\<close>

definition json_number :: "string \<Rightarrow> bool" where
  "json_number b =
     (b \<noteq> [] \<and> list_all is_digit b \<and> (1 < length b \<longrightarrow> hd b \<noteq> CHR ''0''))"

text \<open>A JSON string of printable ASCII characters without escapes.\<close>

definition plain_char :: "char \<Rightarrow> bool" where
  "plain_char c = (CHR 0x20 \<le> c \<and> c \<le> CHR 0x7E \<and> c \<noteq> CHR 0x22 \<and> c \<noteq> CHR 0x5C)"

definition json_plain_string :: "string \<Rightarrow> bool" where
  "json_plain_string b =
     (2 \<le> length b \<and> hd b = CHR 0x22 \<and> last b = CHR 0x22 \<and> list_all plain_char (butlast (tl b)))"

definition scalar_json :: "string \<Rightarrow> error + any" where
  "scalar_json b =
     (if b = ''null'' then Inr Nil
      else if b = ''true'' then Inr (Bool True)
      else if b = ''false'' then Inr (Bool False)
      else if b = ''[]'' then Inr (Slice [])
      else if b = ''{}'' then Inr (Map [])
      else if json_plain_string b then Inr (String (butlast (tl b)))
      else if json_number b then Inr (Float64 (Finite (real (digits_val b))))
      else Inl (LibErr ''json: outside the fragment''))"

fun show_nat :: "nat \<Rightarrow> string" where
  "show_nat n =
     (if n < 10 then [''0123456789'' ! n]
      else show_nat (n div 10) @ [''0123456789'' ! (n mod 10)])"

declare show_nat.simps [simp del]

definition whole_format :: "float64 \<Rightarrow> string" where
  "whole_format x =
     (case x of Finite v \<Rightarrow> show_nat (nat \<lfloor>v\<rfloor>)
      | PosInf \<Rightarrow> ''+Inf'' | NegInf \<Rightarrow> ''-Inf'' | NaN \<Rightarrow> ''NaN'')"

definition fragment_lib :: stdlib where
  "fragment_lib =
     \<lparr>json_Unmarshal = scalar_json, scan_float = decimal_scan, FormatFloat = whole_format\<rparr>"

section \<open>The rune loop of strings.EqualFold\<close>

text \<open>
  \<^verbatim>\<open>utf8.DecodeRuneInString(s)\<close>: the first rune of \<open>s\<close> and its width in bytes. The
  library's table \<^verbatim>\<open>first\<close> gives, for the first byte, the length of the sequence and the
  range accepted for the second byte; the further bytes must lie between \<^verbatim>\<open>0x80\<close> and
  \<^verbatim>\<open>0xBF\<close>. An empty string yields \<^verbatim>\<open>(RuneError, 0)\<close> and an invalid or cut sequence
  yields \<^verbatim>\<open>(RuneError, 1)\<close>. Runes are code points, modelled by natural numbers. A
  \<^verbatim>\<open>for _, r := range s\<close> loop decodes in the same way.
\<close>

definition RuneError :: nat where
  "RuneError = 0xFFFD"

definition RuneSelf :: nat where
  "RuneSelf = 0x80"

definition DecodeRuneInString :: "string \<Rightarrow> nat \<times> nat" where
  "DecodeRuneInString s =
     (case map of_char s of
        [] \<Rightarrow> (RuneError, 0)
      | s0 # rest \<Rightarrow>
          if s0 < RuneSelf then (s0, 1)
          else if s0 < 0xC2 \<or> 0xF5 \<le> s0 then (RuneError, 1)
          else
            (let sz = (if s0 < 0xE0 then 2 else if s0 < 0xF0 then 3 else 4 :: nat);
                 lo = (if s0 = 0xE0 then 0xA0 else if s0 = 0xF0 then 0x90 else 0x80);
                 hi = (if s0 = 0xED then 0x9F else if s0 = 0xF4 then 0x8F else 0xBF)
             in if length s < sz then (RuneError, 1)
                else if rest ! 0 < lo \<or> hi < rest ! 0 then (RuneError, 1)
                else if sz \<le> 2 then ((s0 mod 32) * 64 + rest ! 0 mod 64, 2)
                else if rest ! 1 < 0x80 \<or> 0xBF < rest ! 1 then (RuneError, 1)
                else if sz \<le> 3
                  then ((s0 mod 16) * 4096 + (rest ! 0 mod 64) * 64 + rest ! 1 mod 64, 3)
                else if rest ! 2 < 0x80 \<or> 0xBF < rest ! 2 then (RuneError, 1)
                else ((s0 mod 8) * 262144 + (rest ! 0 mod 64) * 4096 + (rest ! 1 mod 64) * 64
                        + rest ! 2 mod 64, 4)))"

text \<open>
  \<^verbatim>\<open>unicode.SimpleFold(r)\<close>: the next rune, in increasing order and wrapping around, of
  the set of runes equal to \<open>r\<close> under simple case folding. For an ASCII letter that set
  is the letter in both cases, joined for \<^verbatim>\<open>K\<close> by U+212A KELVIN SIGN and for \<^verbatim>\<open>S\<close> by
  U+017F LATIN SMALL LETTER LONG S; any other ASCII character folds to itself. The
  folding of the remaining runes is the parameter \<open>other\<close>.
\<close>

definition SimpleFold :: "(nat \<Rightarrow> nat) \<Rightarrow> nat \<Rightarrow> nat" where
  "SimpleFold other r =
     (if r = 0x4B then 0x6B else if r = 0x6B then 0x212A else if r = 0x212A then 0x4B
      else if r = 0x53 then 0x73 else if r = 0x73 then 0x17F else if r = 0x17F then 0x53
      else if 0x41 \<le> r \<and> r \<le> 0x5A then r + 32
      else if 0x61 \<le> r \<and> r \<le> 0x7A then r - 32
      else if r < RuneSelf then r
      else other r)"

text \<open>
  The general case of the rune loop, for two different runes \<open>sr < tr\<close>:
  \<^verbatim>\<open>r := unicode.SimpleFold(sr); for r != sr && r < tr { r = unicode.SimpleFold(r) }\<close>.
  The result is \<open>None\<close> when the walk does not end.
\<close>

definition fold_walk :: "(nat \<Rightarrow> nat) \<Rightarrow> nat \<Rightarrow> nat \<Rightarrow> nat option" where
  "fold_walk other sr tr =
     while_option (\<lambda>r. r \<noteq> sr \<and> r < tr) (SimpleFold other) (SimpleFold other sr)"

text \<open>
  The loop \<^verbatim>\<open>for _, sr := range s\<close> that \<^verbatim>\<open>strings.EqualFold\<close> runs on the two remaining
  strings once it has met a byte that is not ASCII. Each round takes a rune off each
  string; equal runes pass; two different ASCII runes pass when they are the upper and
  the lower case of a letter; otherwise the smaller rune's fold set is walked and must
  contain the larger one. When \<open>s\<close> is used up the result is \<^verbatim>\<open>len(t) == 0\<close>.
\<close>

function rune_loop :: "(nat \<Rightarrow> nat) \<Rightarrow> string \<Rightarrow> string \<Rightarrow> bool option" where
  "rune_loop other s t =
     (if s = [] then Some (length t = 0)
      else if length t = 0 then Some False
      else
        (let sr0 = fst (DecodeRuneInString s);
             s' = drop (snd (DecodeRuneInString s)) s;
             tr0 = (if of_char (hd t) < RuneSelf then of_char (hd t)
                    else fst (DecodeRuneInString t));
             t' = (if of_char (hd t) < RuneSelf then tl t
                   else drop (snd (DecodeRuneInString t)) t);
             sr = (if tr0 < sr0 then tr0 else sr0);
             tr = (if tr0 < sr0 then sr0 else tr0)
         in if tr0 = sr0 then rune_loop other s' t'
            else if tr < RuneSelf
              then (if 0x41 \<le> sr \<and> sr \<le> 0x5A \<and> tr = sr + 32 then rune_loop other s' t'
                    else Some False)
            else (case fold_walk other sr tr of
                    None \<Rightarrow> None
                  | Some r \<Rightarrow> if r = tr then rune_loop other s' t' else Some False)))"
  by pat_completeness auto
termination
proof -
  have width: "0 < snd (DecodeRuneInString s)" if "s \<noteq> []" for s
    using that by (cases s) (simp_all add: DecodeRuneInString_def Let_def)
  show ?thesis
    by (relation "measure (\<lambda>(other, s, t). length s)") (simp_all add: width)
qed

declare rune_loop.simps [simp del]

text \<open>
  The rune loop as the argument \<open>hasUnicode\<close> of \<open>EqualFold\<close>: true when the loop returns
  true. When the second string is ASCII, as the ten words of \<^verbatim>\<open>FlexBool\<close> are, the loop
  always returns (lemma \<open>rune_loop_returns\<close> below).
\<close>

definition hasUnicode_runes :: "(nat \<Rightarrow> nat) \<Rightarrow> string \<Rightarrow> string \<Rightarrow> bool" where
  "hasUnicode_runes other s t = (rune_loop other s t = Some True)"

text \<open>For evaluation on ASCII words: no further rune folds to another one.\<close>

definition no_other_fold :: "nat \<Rightarrow> nat" where
  "no_other_fold r = r"

section \<open>The dual-shape record decoder\<close>

text \<open>
  \<^verbatim>\<open>type UAPStat struct { *Ap }\<close>: a pointer to the record \<^verbatim>\<open>Ap\<close> (\<open>None\<close> is \<^verbatim>\<open>nil\<close>). The
  record \<^verbatim>\<open>Ap\<close> has more than two hundred fields; the decoder never looks into it, so
  it is a type parameter here.
\<close>

record 'ap UAPStat =
  Ap :: "'ap option"

text \<open>
  \<^verbatim>\<open>func (v *UAPStat) UnmarshalJSON(data []byte) error\<close>. The local
  \<^verbatim>\<open>var n struct { Ap `json:"ap"` }\<close> starts as the zero value, and \<^verbatim>\<open>v.Ap = &n.Ap\<close> makes
  \<^verbatim>\<open>v.Ap\<close> an alias of the only field of \<^verbatim>\<open>n\<close>: both calls of \<^verbatim>\<open>json.Unmarshal\<close> write
  into the same \<^verbatim>\<open>Ap\<close>, and the second starts from what the first has left there. The
  two calls are parameters, each taking the body and the current \<^verbatim>\<open>Ap\<close> and returning
  the error and the \<^verbatim>\<open>Ap\<close> after the call: \<open>Unmarshal_Ap\<close> is
  \<^verbatim>\<open>json.Unmarshal(data, v.Ap)\<close>, the body decoded directly as the flat record, and
  \<open>Unmarshal_n\<close> is \<^verbatim>\<open>json.Unmarshal(data, &n)\<close>, the body decoded as the envelope
  \<^verbatim>\<open>{"ap": {...}}\<close>.
\<close>

definition UAPStat_UnmarshalJSON ::
  "(string \<Rightarrow> 'ap \<Rightarrow> error option \<times> 'ap) \<Rightarrow> (string \<Rightarrow> 'ap \<Rightarrow> error option \<times> 'ap) \<Rightarrow> 'ap \<Rightarrow>
   'ap UAPStat \<Rightarrow> string \<Rightarrow> error option \<times> 'ap UAPStat" where
  "UAPStat_UnmarshalJSON Unmarshal_Ap Unmarshal_n zero_Ap v data =
     (let (err, n1) = Unmarshal_Ap data zero_Ap
      in if err \<noteq> None
         then (let (err2, n2) = Unmarshal_n data n1 in (err2, v\<lparr>Ap := Some n2\<rparr>))
         else (None, v\<lparr>Ap := Some n1\<rparr>))"

text \<open>
  For evaluation: the record \<^verbatim>\<open>Ap\<close> cut down to its fields \<^verbatim>\<open>Ap string `json:"ap"`\<close> and
  \<^verbatim>\<open>Bytes FlexInt `json:"bytes"`\<close>, and what the two calls of \<^verbatim>\<open>json.Unmarshal\<close> do on
  three bodies. On \<^verbatim>\<open>[]\<close> both report that an array cannot be decoded into the target,
  each naming its own target type. On \<^verbatim>\<open>{"bytes":10}\<close> the flat call hands the token
  \<^verbatim>\<open>10\<close> to \<^verbatim>\<open>FlexInt.UnmarshalJSON\<close>; the envelope call knows no key \<^verbatim>\<open>bytes\<close>, skips it
  and succeeds. On \<^verbatim>\<open>{"ap":{"bytes":10}}\<close> the flat call finds an object where the string
  field \<^verbatim>\<open>ap\<close> is expected and reports it; the envelope call decodes the inner object.
  Other bodies are outside the table.
\<close>

record Ap_cut =
  Ap_ap :: string
  Bytes :: FlexInt

definition zero_Ap_cut :: Ap_cut where
  "zero_Ap_cut = \<lparr>Ap_ap = [], Bytes = \<lparr>FlexInt.Val = Finite 0, Txt = []\<rparr>\<rparr>"

definition decode_Bytes :: "string \<Rightarrow> Ap_cut \<Rightarrow> error option \<times> Ap_cut" where
  "decode_Bytes token t =
     (case FlexInt_UnmarshalJSON fragment_lib (Bytes t) token of
        (err, f) \<Rightarrow> (err, t\<lparr>Bytes := f\<rparr>))"

definition table_Unmarshal_Ap :: "string \<Rightarrow> Ap_cut \<Rightarrow> error option \<times> Ap_cut" where
  \<open>table_Unmarshal_Ap data t =
     (if data = ''[]'' then (Some (LibErr ''json: cannot unmarshal array into unifi.Ap''), t)
      else if data = ''{"bytes":10}'' then decode_Bytes ''10'' t
      else if data = ''{"ap":{"bytes":10}}''
        then (Some (LibErr ''json: cannot unmarshal object into Ap.ap of type string''), t)
      else (Some (LibErr ''outside the table''), t))\<close>

definition table_Unmarshal_n :: "string \<Rightarrow> Ap_cut \<Rightarrow> error option \<times> Ap_cut" where
  \<open>table_Unmarshal_n data t =
     (if data = ''[]'' then (Some (LibErr ''json: cannot unmarshal array into struct { unifi.Ap }''), t)
      else if data = ''{"bytes":10}'' then (None, t)
      else if data = ''{"ap":{"bytes":10}}'' then decode_Bytes ''10'' t
      else (Some (LibErr ''outside the table''), t))\<close>

section \<open>Case-insensitive matching, as the specification words it\<close>

text \<open>
  The specification lets a token be true when it "case-insensitively matches" one of ten
  words. These definitions follow those words, for comparison with the code: two
  strings match when they are equal after the letters \<^verbatim>\<open>A\<close> to \<^verbatim>\<open>Z\<close> are replaced by
  their lower-case forms.
\<close>

definition ascii_lower :: "char \<Rightarrow> char" where
  "ascii_lower c = (if CHR ''A'' \<le> c \<and> c \<le> CHR ''Z'' then char_of ((of_char c :: nat) + 32) else c)"

definition case_insensitive_eq :: "string \<Rightarrow> string \<Rightarrow> bool" where
  "case_insensitive_eq s t = (map ascii_lower s = map ascii_lower t)"

definition truthy_tokens :: "string list" where
  "truthy_tokens = [''1'', ''true'', ''yes'', ''t'', ''armed'', ''active'', ''enabled'', ''ready'', ''up'', ''ok'']"

section \<open>Path resolution\<close>

lemma HasPrefix_append: "HasPrefix (pre @ p) pre"
  by (simp add: HasPrefix_def)

lemma prefixed_not_login: "APIPrefixNew @ p \<noteq> APILoginPath"
  by (simp add: APIPrefixNew_def APILoginPath_def)

lemma login_new_not_login: "APILoginPathNew \<noteq> APILoginPath"
  by (simp add: APILoginPathNew_def APILoginPath_def)

text \<open>
  C4. In the legacy state every path is returned unchanged. In the modern state the
  legacy login path becomes the modern login path; otherwise a path that neither starts
  with the modern prefix nor is the modern login path gets the prefix prepended; every
  other path is returned unchanged. (The second rule is read after the first, as the
  specification's "otherwise" has it: the legacy login path itself is not prefixed.)
\<close>

theorem path_resolution:
  "(\<not> new u \<longrightarrow> path u p = p) \<and>
   (new u \<longrightarrow>
      path u ''/api/login'' = ''/api/auth/login'' \<and>
      (p \<noteq> ''/api/login'' \<and> \<not> HasPrefix p ''/proxy/protect'' \<and> p \<noteq> ''/api/auth/login''
         \<longrightarrow> path u p = ''/proxy/protect'' @ p) \<and>
      (p \<noteq> ''/api/login'' \<and> (HasPrefix p ''/proxy/protect'' \<or> p = ''/api/auth/login'')
         \<longrightarrow> path u p = p))"
  by (simp add: path_def APILoginPath_def APILoginPathNew_def APIPrefixNew_def)

theorem path_resolution_witness:
  "path \<lparr>csrf = [], fingerprints = [], new = False\<rparr> ''/api/s/default/stat/device''
     = ''/api/s/default/stat/device'' \<and>
   path \<lparr>csrf = [], fingerprints = [], new = True\<rparr> ''/api/login'' = ''/api/auth/login'' \<and>
   path \<lparr>csrf = [], fingerprints = [], new = True\<rparr> ''/api/s/default/stat/device''
     = ''/proxy/protect/api/s/default/stat/device'' \<and>
   path \<lparr>csrf = [], fingerprints = [], new = True\<rparr> ''/proxy/protect/api/s/default/stat/device''
     = ''/proxy/protect/api/s/default/stat/device'' \<and>
   path \<lparr>csrf = [], fingerprints = [], new = True\<rparr> ''/api/auth/login'' = ''/api/auth/login''"
  using path_resolution [of "\<lparr>csrf = [], fingerprints = [], new = False\<rparr>" "''/api/s/default/stat/device''"]
    path_resolution [of "\<lparr>csrf = [], fingerprints = [], new = True\<rparr>" "''/api/s/default/stat/device''"]
    path_resolution [of "\<lparr>csrf = [], fingerprints = [], new = True\<rparr>" "''/proxy/protect/api/s/default/stat/device''"]
    path_resolution [of "\<lparr>csrf = [], fingerprints = [], new = True\<rparr>" "''/api/auth/login''"]
  by (simp add: HasPrefix_def)

text \<open>
  C5. The resolver is idempotent in both states: resolving a resolved path changes
  nothing. In particular an already prefixed path and the modern login path are left
  as they are in the modern state.
\<close>

theorem path_idempotent:
  "path u (path u p) = path u p \<and>
   (new u \<longrightarrow>
      path u ''/proxy/protect/api/s/default/stat/device''
        = ''/proxy/protect/api/s/default/stat/device'' \<and>
      path u ''/api/auth/login'' = ''/api/auth/login'')"
proof -
  have idem: "path u (path u p) = path u p"
  proof (cases "new u")
    case False
    then show ?thesis by (simp add: path_def)
  next
    case True
    show ?thesis
    proof (cases "p = APILoginPath")
      case True
      with \<open>new u\<close> show ?thesis
        by (simp add: path_def login_new_not_login)
    next
      case False
      with \<open>new u\<close> show ?thesis
        by (simp add: path_def HasPrefix_append prefixed_not_login)
    qed
  qed
  have ex: "new u \<Longrightarrow>
      path u ''/proxy/protect/api/s/default/stat/device''
        = ''/proxy/protect/api/s/default/stat/device'' \<and>
      path u ''/api/auth/login'' = ''/api/auth/login''"
    by (simp add: path_def HasPrefix_def APILoginPath_def APILoginPathNew_def APIPrefixNew_def)
  from idem ex show ?thesis by blast
qed

theorem path_idempotent_witness:
  "path \<lparr>csrf = [], fingerprints = [], new = True\<rparr>
      (path \<lparr>csrf = [], fingerprints = [], new = True\<rparr> ''/api/login'')
     = ''/api/auth/login'' \<and>
   path \<lparr>csrf = [], fingerprints = [], new = True\<rparr>
      (path \<lparr>csrf = [], fingerprints = [], new = True\<rparr> ''/api/s/default/stat/device'')
     = ''/proxy/protect/api/s/default/stat/device'' \<and>
   path \<lparr>csrf = [], fingerprints = [], new = True\<rparr> ''/api/auth/login'' = ''/api/auth/login''"
  using path_idempotent [of "\<lparr>csrf = [], fingerprints = [], new = True\<rparr>" "''/api/login''"]
    path_idempotent [of "\<lparr>csrf = [], fingerprints = [], new = True\<rparr>" "''/api/s/default/stat/device''"]
  by (simp add: path_def HasPrefix_def APILoginPath_def APILoginPathNew_def APIPrefixNew_def)

section \<open>Certificate pinning verifies membership of a digest\<close>

lemma Contains_iff: "Contains f s \<longleftrightarrow> s \<in> set f"
  by (induction f) auto

lemma verify_certs_iff:
  "verify_certs Sum256 fps certs =
     (if \<exists>cert \<in> set certs. Sprintf_x (Sum256 cert) \<in> set fps then None
      else Some ErrInvalidSignature)"
  by (induction certs) (auto simp: Contains_iff)

text \<open>
  C6. For every list of presented certificates and every configured fingerprint list:
  with no fingerprint configured the verifier succeeds; when the lowercase hexadecimal
  SHA-256 digest of some presented certificate is among the fingerprints it succeeds;
  in every other case it returns the error \<open>ErrInvalidSignature\<close>.
\<close>

theorem verifyPeerCertificate_pinning:
  "(fingerprints u = [] \<longrightarrow> verifyPeerCertificate Sum256 u certs = None) \<and>
   ((\<exists>cert \<in> set certs. Sprintf_x (Sum256 cert) \<in> set (fingerprints u))
      \<longrightarrow> verifyPeerCertificate Sum256 u certs = None) \<and>
   (fingerprints u \<noteq> [] \<and> \<not> (\<exists>cert \<in> set certs. Sprintf_x (Sum256 cert) \<in> set (fingerprints u))
      \<longrightarrow> verifyPeerCertificate Sum256 u certs = Some ErrInvalidSignature)"
  by (simp add: verifyPeerCertificate_def verify_certs_iff)

theorem verifyPeerCertificate_pinning_witness:
  "verifyPeerCertificate prefix_digest \<lparr>csrf = [], fingerprints = [], new = False\<rparr> [''cert-one''] = None \<and>
   verifyPeerCertificate prefix_digest \<lparr>csrf = [], fingerprints = [''63657274''], new = False\<rparr>
     [''other'', ''cert-one''] = None \<and>
   verifyPeerCertificate prefix_digest \<lparr>csrf = [], fingerprints = [''63657274''], new = False\<rparr>
     [''other''] = Some ErrInvalidSignature"
  using verifyPeerCertificate_pinning [of "\<lparr>csrf = [], fingerprints = [], new = False\<rparr>"
      prefix_digest "[''cert-one'']"]
    verifyPeerCertificate_pinning [of "\<lparr>csrf = [], fingerprints = [''63657274''], new = False\<rparr>"
      prefix_digest "[''other'', ''cert-one'']"]
    verifyPeerCertificate_pinning [of "\<lparr>csrf = [], fingerprints = [''63657274''], new = False\<rparr>"
      prefix_digest "[''other'']"]
  by (simp add: prefix_digest_def Sprintf_x_def hex_digit_def)

section \<open>Status codes of requests\<close>

text \<open>
  C9, as stated, fails: a response with a status other than 200 whose body cannot be
  read to its end makes \<open>do\<close> return the read error, which does not wrap
  \<open>ErrInvalidStatusCode\<close>; the status is never looked at. Here the server answers 503
  and the body stream breaks after seven bytes.
\<close>

theorem do_broken_body_counterexample:
  \<open>StatusCode (projr (broken_body_transport ())) = 503 \<and>
   fst (do broken_body_transport \<lparr>csrf = [], fingerprints = [], new = False\<rparr> ())
     = (''{"meta"'', Some (Errorf ''reading response: %w'' (LibErr ''unexpected EOF''))) \<and>
   \<not> errors_Is (Errorf ''reading response: %w'' (LibErr ''unexpected EOF'')) ErrInvalidStatusCode\<close>
  by (simp add: do_def broken_body_transport_def)

text \<open>
  C9, amended. For every request executed through \<open>do\<close> whose response arrives and
  whose body is read without a read error: when the status is not 200 the call returns
  the body that was read together with an error wrapping \<open>ErrInvalidStatusCode\<close>; when
  the status is 200 it returns the body and no error.
\<close>

theorem do_status_after_read:
  assumes "Do req = Inr resp" and "snd (ReadAll_Body resp) = None"
  shows "(StatusCode resp \<noteq> 200 \<longrightarrow>
            fst (fst (do Do u req)) = fst (ReadAll_Body resp) \<and>
            (\<exists>e. snd (fst (do Do u req)) = Some e \<and> errors_Is e ErrInvalidStatusCode)) \<and>
         (StatusCode resp = 200 \<longrightarrow> fst (do Do u req) = (fst (ReadAll_Body resp), None))"
proof -
  obtain body where body: "ReadAll_Body resp = (body, None)"
    using assms(2) by (cases "ReadAll_Body resp") auto
  show ?thesis
    using assms(1) body by (simp add: do_def Let_def)
qed

theorem do_status_after_read_witness:
  \<open>fst (fst (do unavailable_transport \<lparr>csrf = [], fingerprints = [], new = False\<rparr> ()))
     = ''{"meta":{"rc":"error"}}'' \<and>
   (\<exists>e. snd (fst (do unavailable_transport \<lparr>csrf = [], fingerprints = [], new = False\<rparr> ())) = Some e
        \<and> errors_Is e ErrInvalidStatusCode) \<and>
   fst (do ok_transport \<lparr>csrf = [], fingerprints = [], new = False\<rparr> ()) = (''{"data":[]}'', None)\<close>
proof -
  have a: \<open>unavailable_transport () =
      Inr \<lparr>StatusCode = 503, Status = ''503 Service Unavailable'', Header_Get = no_headers,
           ReadAll_Body = (''{"meta":{"rc":"error"}}'', None)\<rparr>\<close>
    by (simp add: unavailable_transport_def)
  have b: \<open>ok_transport () =
      Inr \<lparr>StatusCode = 200, Status = ''200 OK'', Header_Get = no_headers,
           ReadAll_Body = (''{"data":[]}'', None)\<rparr>\<close>
    by (simp add: ok_transport_def)
  show ?thesis
    using do_status_after_read [where Do = unavailable_transport and req = "()"
        and u = "\<lparr>csrf = [], fingerprints = [], new = False\<rparr>", OF a]
      do_status_after_read [where Do = ok_transport and req = "()"
        and u = "\<lparr>csrf = [], fingerprints = [], new = False\<rparr>", OF b]
    by simp
qed

section \<open>The truthy allow-list of FlexBool\<close>

lemma of_char_ascii_lower:
  "(of_char c :: nat) < 128 \<Longrightarrow>
   (of_char (ascii_lower c) :: nat) =
     (if 65 \<le> (of_char c :: nat) \<and> (of_char c :: nat) \<le> 90 then of_char c + 32 else of_char c)"
  by (simp add: ascii_lower_def less_eq_char_def of_char_of)

lemma ascii_fold_step:
  assumes "(of_char a :: nat) < 128" "(of_char b :: nat) < 128" "a \<noteq> b"
  shows "(if b < a then upper_lower_pair b a else upper_lower_pair a b) \<longleftrightarrow> ascii_lower a = ascii_lower b"
proof -
  have ne: "(of_char a :: nat) \<noteq> of_char b"
    using assms(3) by (simp add: of_char_eq_iff)
  have "ascii_lower a = ascii_lower b \<longleftrightarrow> (of_char (ascii_lower a) :: nat) = of_char (ascii_lower b)"
    by (simp add: of_char_eq_iff)
  then show ?thesis
    using ne assms(1,2)
    by (auto simp: of_char_ascii_lower upper_lower_pair_def less_eq_char_def less_char_def)
qed

lemma EqualFold_ascii:
  "\<forall>c \<in> set s. (of_char c :: nat) < 128 \<Longrightarrow> \<forall>c \<in> set t. (of_char c :: nat) < 128 \<Longrightarrow>
   EqualFold hasUnicode s t = case_insensitive_eq s t"
proof (induction hasUnicode s t rule: EqualFold.induct)
  case (1 hasUnicode sr s tr t)
  then show ?case
    using ascii_fold_step [of sr tr]
    by (auto simp: case_insensitive_eq_def)
qed (auto simp: case_insensitive_eq_def)


lemma ascii_lower_one: "ascii_lower c = CHR ''1'' \<longleftrightarrow> c = CHR ''1''"
proof -
  have "ascii_lower c = CHR ''1'' \<longleftrightarrow> (of_char (ascii_lower c) :: nat) = of_char (CHR ''1'')"
    by (simp only: of_char_eq_iff)
  also have "\<dots> \<longleftrightarrow> (of_char c :: nat) = of_char (CHR ''1'')"
    by (auto simp: ascii_lower_def less_eq_char_def of_char_of)
  also have "\<dots> \<longleftrightarrow> c = CHR ''1''"
    by (simp only: of_char_eq_iff)
  finally show ?thesis .
qed

lemma ascii_lower_one_fixed: "ascii_lower (CHR ''1'') = CHR ''1''"
  by (simp add: ascii_lower_def)

lemma case_insensitive_eq_one: "case_insensitive_eq txt ''1'' \<longleftrightarrow> txt = ''1''"
  by (cases "txt") (auto simp: case_insensitive_eq_def ascii_lower_one ascii_lower_one_fixed)

lemma FlexBool_Val:
  "FlexBool.Val (snd (FlexBool_UnmarshalJSON hasUnicode f b)) \<longleftrightarrow>
     (Trim b (CHR 0x22) = ''1'' \<or>
      (\<exists>w \<in> set (tl truthy_tokens). EqualFold hasUnicode (Trim b (CHR 0x22)) w))"
  by (simp add: FlexBool_UnmarshalJSON_def Let_def truthy_tokens_def)

lemma FlexBool_Val_ascii:
  assumes "\<forall>c \<in> set (Trim b (CHR 0x22)). (of_char c :: nat) < 128"
  shows "FlexBool.Val (snd (FlexBool_UnmarshalJSON hasUnicode f b)) \<longleftrightarrow>
     (\<exists>w \<in> set truthy_tokens. case_insensitive_eq (Trim b (CHR 0x22)) w)"
proof -
  have w: "\<And>w. w \<in> set (tl truthy_tokens) \<Longrightarrow>
      EqualFold hasUnicode (Trim b (CHR 0x22)) w = case_insensitive_eq (Trim b (CHR 0x22)) w"
    using assms by (intro EqualFold_ascii) (auto simp: truthy_tokens_def)
  have "FlexBool.Val (snd (FlexBool_UnmarshalJSON hasUnicode f b)) \<longleftrightarrow>
     (case_insensitive_eq (Trim b (CHR 0x22)) ''1'' \<or>
      (\<exists>w \<in> set (tl truthy_tokens). case_insensitive_eq (Trim b (CHR 0x22)) w))"
    unfolding FlexBool_Val case_insensitive_eq_one using w by blast
  then show ?thesis
    by (simp add: truthy_tokens_def)
qed

lemma FlexBool_truth_table:
  \<open>FlexBool.Val (snd (FlexBool_UnmarshalJSON hasUnicode f ''"yes"'')) \<and>
   FlexBool.Val (snd (FlexBool_UnmarshalJSON hasUnicode f ''"enabled"'')) \<and>
   FlexBool.Val (snd (FlexBool_UnmarshalJSON hasUnicode f ''1'')) \<and>
   FlexBool.Val (snd (FlexBool_UnmarshalJSON hasUnicode f ''true'')) \<and>
   \<not> FlexBool.Val (snd (FlexBool_UnmarshalJSON hasUnicode f ''0'')) \<and>
   \<not> FlexBool.Val (snd (FlexBool_UnmarshalJSON hasUnicode f ''false'')) \<and>
   \<not> FlexBool.Val (snd (FlexBool_UnmarshalJSON hasUnicode f ''"0"'')) \<and>
   \<not> FlexBool.Val (snd (FlexBool_UnmarshalJSON hasUnicode f ''"false"'')) \<and>
   \<not> FlexBool.Val (snd (FlexBool_UnmarshalJSON hasUnicode f ''"no"'')) \<and>
   \<not> FlexBool.Val (snd (FlexBool_UnmarshalJSON hasUnicode f ''"disarmed"'')) \<and>
   \<not> FlexBool.Val (snd (FlexBool_UnmarshalJSON hasUnicode f ''"inactive"'')) \<and>
   \<not> FlexBool.Val (snd (FlexBool_UnmarshalJSON hasUnicode f ''"maybe"''))\<close>
  by (simp add: FlexBool_UnmarshalJSON_def Trim_def trimLeftByte_def trimRightByte_def
      upper_lower_pair_def)


section \<open>The rune loop returns on the words of the allow-list\<close>

lemma SimpleFold_special:
  "SimpleFold other 0x4B = 0x6B" "SimpleFold other 0x6B = 0x212A" "SimpleFold other 0x212A = 0x4B"
  "SimpleFold other 0x53 = 0x73" "SimpleFold other 0x73 = 0x17F" "SimpleFold other 0x17F = 0x53"
  by (simp_all add: SimpleFold_def)

lemma SimpleFold_upper:
  "0x41 \<le> a \<Longrightarrow> a \<le> 0x5A \<Longrightarrow> a \<noteq> 0x4B \<Longrightarrow> a \<noteq> 0x53 \<Longrightarrow> SimpleFold other a = a + 32"
  by (simp add: SimpleFold_def)

lemma SimpleFold_lower:
  "0x61 \<le> a \<Longrightarrow> a \<le> 0x7A \<Longrightarrow> a \<noteq> 0x6B \<Longrightarrow> a \<noteq> 0x73 \<Longrightarrow> SimpleFold other a = a - 32"
  by (simp add: SimpleFold_def)

lemma SimpleFold_no_letter:
  "a < 0x41 \<or> (0x5A < a \<and> a < 0x61) \<or> (0x7A < a \<and> a < 0x80) \<Longrightarrow> SimpleFold other a = a"
  by (auto simp: SimpleFold_def RuneSelf_def)

lemma SimpleFold_ascii_orbit:
  assumes "a < 0x80"
  shows "SimpleFold other (SimpleFold other a) = a \<or>
         SimpleFold other (SimpleFold other (SimpleFold other a)) = a"
proof -
  consider "a = 0x4B" | "a = 0x6B" | "a = 0x53" | "a = 0x73"
    | "0x41 \<le> a" "a \<le> 0x5A" "a \<noteq> 0x4B" "a \<noteq> 0x53"
    | "0x61 \<le> a" "a \<le> 0x7A" "a \<noteq> 0x6B" "a \<noteq> 0x73"
    | "a < 0x41 \<or> (0x5A < a \<and> a < 0x61) \<or> (0x7A < a \<and> a < 0x80)"
    using assms by linarith
  then show ?thesis
  proof cases
    case 5
    then have "SimpleFold other a = a + 32" by (rule SimpleFold_upper)
    moreover have "SimpleFold other (a + 32) = a + 32 - 32"
      using 5 by (intro SimpleFold_lower) simp_all
    ultimately show ?thesis by simp
  next
    case 6
    then have "SimpleFold other a = a - 32" by (rule SimpleFold_lower)
    moreover have "SimpleFold other (a - 32) = a - 32 + 32"
      using 6 by (intro SimpleFold_upper) simp_all
    ultimately show ?thesis using 6 by simp
  next
    case 7
    then show ?thesis by (simp add: SimpleFold_no_letter)
  qed (simp_all add: SimpleFold_special)
qed

lemma while_option_three:
  assumes "\<not> b (c s) \<or> \<not> b (c (c s))"
  shows "\<exists>r. while_option b c s = Some r"
proof (cases "b s")
  case False
  then show ?thesis by (subst while_option_unfold) simp
next
  case s: True
  show ?thesis
  proof (cases "b (c s)")
    case False
    then show ?thesis
      using s by (subst while_option_unfold, simp, subst while_option_unfold, simp)
  next
    case True
    with assms have "\<not> b (c (c s))" by simp
    then show ?thesis
      using s True
      by (subst while_option_unfold, simp, subst while_option_unfold, simp,
          subst while_option_unfold, simp)
  qed
qed

lemma fold_walk_returns:
  assumes "a < 0x80"
  shows "\<exists>r. fold_walk other a u = Some r"
  unfolding fold_walk_def
  using SimpleFold_ascii_orbit [OF assms, of other]
  by (intro while_option_three) auto


lemma DecodeRuneInString_width: "s \<noteq> [] \<Longrightarrow> 0 < snd (DecodeRuneInString s)"
  by (cases s) (simp_all add: DecodeRuneInString_def Let_def)

lemma rune_loop_returns:
  "\<forall>c \<in> set t. (of_char c :: nat) < 0x80 \<Longrightarrow> \<exists>r. rune_loop other s t = Some r"
proof (induction "length s" arbitrary: s t rule: less_induct)
  case less
  show ?case
  proof (cases "s = [] \<or> t = []")
    case True
    then show ?thesis by (subst rune_loop.simps) auto
  next
    case False
    then obtain c t' where t: "t = c # t'" by (cases t) auto
    have c: "(of_char c :: nat) < RuneSelf" and t': "\<forall>c \<in> set t'. (of_char c :: nat) < 0x80"
      using less.prems by (simp_all add: t RuneSelf_def)
    have "length (drop (snd (DecodeRuneInString s)) s) < length s"
      using False DecodeRuneInString_width [of s] by simp
    then obtain r where rec: "rune_loop other (drop (snd (DecodeRuneInString s)) s) t' = Some r"
      using less.hyps t' by blast
    obtain w where walk: "fold_walk other (of_char c) (fst (DecodeRuneInString s)) = Some w"
      using fold_walk_returns [of "of_char c" other] c by (auto simp: RuneSelf_def)
    show ?thesis
      using False c rec walk
      by (subst rune_loop.simps) (auto simp: t Let_def)
  qed
qed

section \<open>The truthy allow-list on every token\<close>

lemma fold_walk_k_kelvin: "fold_walk other 0x6B 0x212A = Some 0x212A"
  by (simp add: fold_walk_def SimpleFold_def while_option_unfold)

text \<open>
  C8, as stated, fails on a token that is not ASCII. The token \<^verbatim>\<open>o\<close> followed by U+212A
  KELVIN SIGN (the bytes \<^verbatim>\<open>E2 84 AA\<close> in UTF-8), in quotes, is not case-insensitively
  equal to any of the ten words, yet \<^verbatim>\<open>strings.EqualFold\<close> matches it with \<^verbatim>\<open>ok\<close>, since
  the Kelvin sign folds to \<^verbatim>\<open>k\<close>, and \<open>Val\<close> is true.
\<close>

theorem FlexBool_kelvin_sign_counterexample:
  \<open>FlexBool_UnmarshalJSON (hasUnicode_runes no_other_fold) \<lparr>FlexBool.Val = False, Txt = []\<rparr>
      [CHR 0x22, CHR ''o'', CHR 0xE2, CHR 0x84, CHR 0xAA, CHR 0x22]
     = (None, \<lparr>FlexBool.Val = True, Txt = [CHR ''o'', CHR 0xE2, CHR 0x84, CHR 0xAA]\<rparr>) \<and>
   \<not> (\<exists>w \<in> set truthy_tokens.
         case_insensitive_eq [CHR ''o'', CHR 0xE2, CHR 0x84, CHR 0xAA] w)\<close>
proof -
  have loop: \<open>rune_loop no_other_fold [CHR 0xE2, CHR 0x84, CHR 0xAA] ''k'' = Some True\<close>
    by (simp add: rune_loop.simps DecodeRuneInString_def RuneSelf_def Let_def fold_walk_k_kelvin)
  have fold: \<open>EqualFold (hasUnicode_runes no_other_fold) [CHR ''o'', CHR 0xE2, CHR 0x84, CHR 0xAA] ''ok''\<close>
    by (simp add: hasUnicode_runes_def loop)
  have val: \<open>FlexBool_UnmarshalJSON (hasUnicode_runes no_other_fold) \<lparr>FlexBool.Val = False, Txt = []\<rparr>
      [CHR 0x22, CHR ''o'', CHR 0xE2, CHR 0x84, CHR 0xAA, CHR 0x22]
     = (None, \<lparr>FlexBool.Val = True, Txt = [CHR ''o'', CHR 0xE2, CHR 0x84, CHR 0xAA]\<rparr>)\<close>
    using fold
    by (simp add: FlexBool_UnmarshalJSON_def Trim_def trimLeftByte_def trimRightByte_def
        del: EqualFold.simps)
  have ne: \<open>\<not> (\<exists>w \<in> set truthy_tokens.
         case_insensitive_eq [CHR ''o'', CHR 0xE2, CHR 0x84, CHR 0xAA] w)\<close>
    by (simp add: truthy_tokens_def case_insensitive_eq_def ascii_lower_def)
  from val ne show ?thesis by simp
qed

text \<open>
  C8, amended. For every input token whose text, with the surrounding quotes stripped,
  consists of ASCII bytes, \<open>Val\<close> is true if and only if that text case-insensitively
  equals one of \<^verbatim>\<open>1, true, yes, t, armed, active, enabled, ready, up, ok\<close>; every other
  such token, including \<^verbatim>\<open>0\<close>, \<^verbatim>\<open>false\<close>, \<^verbatim>\<open>no\<close>, \<^verbatim>\<open>disarmed\<close>, \<^verbatim>\<open>inactive\<close> and
  unrecognised strings such as \<^verbatim>\<open>maybe\<close>, yields false. This holds whatever the rune
  loop of \<^verbatim>\<open>strings.EqualFold\<close> does. For every token, ASCII or not, \<open>Val\<close> is true
  exactly when the text is \<^verbatim>\<open>1\<close> or \<^verbatim>\<open>strings.EqualFold\<close> matches it with one of the
  other nine words.
\<close>

theorem FlexBool_truthy_allow_list:
  \<open>(FlexBool.Val (snd (FlexBool_UnmarshalJSON hasUnicode f b)) \<longleftrightarrow>
      (Trim b (CHR 0x22) = ''1'' \<or>
       (\<exists>w \<in> set (tl truthy_tokens). EqualFold hasUnicode (Trim b (CHR 0x22)) w))) \<and>
   ((\<forall>c \<in> set (Trim b (CHR 0x22)). (of_char c :: nat) < 128) \<longrightarrow>
      (FlexBool.Val (snd (FlexBool_UnmarshalJSON hasUnicode f b)) \<longleftrightarrow>
         (\<exists>w \<in> set truthy_tokens. case_insensitive_eq (Trim b (CHR 0x22)) w))) \<and>
   FlexBool.Val (snd (FlexBool_UnmarshalJSON hasUnicode f ''"yes"'')) \<and>
   FlexBool.Val (snd (FlexBool_UnmarshalJSON hasUnicode f ''"enabled"'')) \<and>
   \<not> FlexBool.Val (snd (FlexBool_UnmarshalJSON hasUnicode f ''0'')) \<and>
   \<not> FlexBool.Val (snd (FlexBool_UnmarshalJSON hasUnicode f ''"0"'')) \<and>
   \<not> FlexBool.Val (snd (FlexBool_UnmarshalJSON hasUnicode f ''false'')) \<and>
   \<not> FlexBool.Val (snd (FlexBool_UnmarshalJSON hasUnicode f ''"false"'')) \<and>
   \<not> FlexBool.Val (snd (FlexBool_UnmarshalJSON hasUnicode f ''"no"'')) \<and>
   \<not> FlexBool.Val (snd (FlexBool_UnmarshalJSON hasUnicode f ''"disarmed"'')) \<and>
   \<not> FlexBool.Val (snd (FlexBool_UnmarshalJSON hasUnicode f ''"inactive"'')) \<and>
   \<not> FlexBool.Val (snd (FlexBool_UnmarshalJSON hasUnicode f ''"maybe"''))\<close>
  using FlexBool_Val [of hasUnicode f b] FlexBool_Val_ascii [of b hasUnicode f]
    FlexBool_truth_table [of hasUnicode f]
  by blast

theorem FlexBool_truthy_allow_list_witness:
  \<open>Trim ''"yEs"'' (CHR 0x22) = ''yEs'' \<and>
   FlexBool.Val (snd (FlexBool_UnmarshalJSON no_unicode \<lparr>FlexBool.Val = False, Txt = []\<rparr> ''"yEs"'')) \<and>
   (\<exists>w \<in> set truthy_tokens. case_insensitive_eq ''yEs'' w) \<and>
   Trim ''"Nope"'' (CHR 0x22) = ''Nope'' \<and>
   \<not> FlexBool.Val (snd (FlexBool_UnmarshalJSON no_unicode \<lparr>FlexBool.Val = True, Txt = []\<rparr> ''"Nope"'')) \<and>
   \<not> (\<exists>w \<in> set truthy_tokens. case_insensitive_eq ''Nope'' w)\<close>
proof -
  have a: \<open>Trim ''"yEs"'' (CHR 0x22) = ''yEs''\<close> \<open>Trim ''"Nope"'' (CHR 0x22) = ''Nope''\<close>
    by (simp_all add: Trim_def trimLeftByte_def trimRightByte_def)
  have y: \<open>FlexBool.Val (snd (FlexBool_UnmarshalJSON no_unicode \<lparr>FlexBool.Val = False, Txt = []\<rparr> ''"yEs"''))\<close>
    by (simp add: FlexBool_UnmarshalJSON_def a upper_lower_pair_def)
  have n: \<open>\<not> FlexBool.Val (snd (FlexBool_UnmarshalJSON no_unicode \<lparr>FlexBool.Val = True, Txt = []\<rparr> ''"Nope"''))\<close>
    by (simp add: FlexBool_UnmarshalJSON_def a upper_lower_pair_def)
  show ?thesis
    using FlexBool_truthy_allow_list [of no_unicode "\<lparr>FlexBool.Val = False, Txt = []\<rparr>" \<open>''"yEs"''\<close>]
      FlexBool_truthy_allow_list [of no_unicode "\<lparr>FlexBool.Val = True, Txt = []\<rparr>" \<open>''"Nope"''\<close>]
      y n
    by (simp add: a)
qed



section \<open>FlexTemp and FlexInt\<close>

lemma rounds_to_infinity_small: "v \<le> 2 ^ 64 \<Longrightarrow> rounds_to_infinity v = False"
proof -
  assume v: "v \<le> 2 ^ 64"
  have "(2::real) ^ 1024 = 2 ^ 970 * 2 ^ 54"
    by (simp only: power_add [symmetric]) simp
  then have eq: "float64_overflow = 2 ^ 970 * (2 ^ 54 - 1)"
    by (simp only: float64_overflow_def right_diff_distrib mult_1_right)
  have "(2::real) ^ 970 * 1 \<le> 2 ^ 970 * (2 ^ 54 - 1)"
    by (rule mult_left_mono) simp_all
  then have "(2::real) ^ 970 \<le> float64_overflow"
    by (simp only: eq mult_1_right)
  moreover have "(2::real) ^ 64 < 2 ^ 970"
    by (rule power_strict_increasing) simp_all
  ultimately have "v < float64_overflow"
    using v by linarith
  then show ?thesis
    by (simp only: rounds_to_infinity_def not_le [symmetric])
qed

lemma rounds_to_infinity_far: "400 \<le> n \<Longrightarrow> rounds_to_infinity (pow10 n)"
proof -
  assume n: "400 \<le> n"
  have "(2::real) ^ 1024 \<le> 2 ^ 1200" by (rule power_increasing) simp_all
  also have "\<dots> = (2 ^ 3) ^ 400" by (simp only: power_mult [symmetric]) simp
  also have "\<dots> \<le> (10::real) ^ 400" by (rule power_mono) simp_all
  also have "\<dots> \<le> 10 ^ n" using n by (rule power_increasing) simp
  finally have a: "(2::real) ^ 1024 \<le> 10 ^ n" .
  have b: "(0::real) \<le> 2 ^ 970" by (rule zero_le_power) simp
  from a b have "(2::real) ^ 1024 - 2 ^ 970 \<le> 10 ^ n" by linarith
  then show ?thesis
    by (simp only: rounds_to_infinity_def float64_overflow_def pow10_def)
qed

lemma pow10_0: "pow10 0 = 1"
  by (simp add: pow10_def)

lemmas scan_simps =
  decimal_scan_def special_scan_def upper_lower_pair_def is_exp_char_def is_digit_def
  digits_val_def rounds_to_infinity_small rounds_to_infinity_far pow10_0 Let_def

text \<open>
  C1. The claim is that \<open>Fahrenheit\<close> returns \<open>Val * 9/5 + 32\<close>, about 97.7 for 36.5
  degrees Celsius. The code multiplies by the integer quotient of 9 and 5, which is 1:
  it returns \<open>Val + 32\<close> for every value, 68.5 for 36.5 degrees Celsius.
\<close>

theorem Fahrenheit_integer_ratio:
  "Fahrenheit f = float64_add (FlexTemp.Val f) (Finite 32) \<and>
   Fahrenheit (f\<lparr>FlexTemp.Val := Finite v\<rparr>) = Finite (v + 32) \<and>
   Fahrenheit \<lparr>FlexTemp.Val = Finite 36.5, Txt = ''36.5''\<rparr> = Finite 68.5 \<and>
   Fahrenheit \<lparr>FlexTemp.Val = Finite 36.5, Txt = ''36.5''\<rparr> \<noteq> Finite (36.5 * 9 / 5 + 32)"
  by (cases "FlexTemp.Val f") (simp_all add: Fahrenheit_def float64_sign_def)

lemma SplitN_two:
  "sep \<in> set s \<Longrightarrow>
   SplitN s sep 2 = [takeWhile (\<lambda>c. c \<noteq> sep) s, tl (dropWhile (\<lambda>c. c \<noteq> sep) s)]"
  "sep \<notin> set s \<Longrightarrow> SplitN s sep 2 = [s]"
  by (simp_all add: numeral_2_eq_2)

lemma FlexTemp_string_input:
  assumes "json_Unmarshal L b = Inr (String i)"
  shows "FlexTemp_UnmarshalJSON L f b =
    (None, \<lparr>FlexTemp.Val =
               (if CHR 0x20 \<in> set b then fst (ParseFloat L (takeWhile (\<lambda>c. c \<noteq> CHR 0x20) b))
                else fst (ParseFloat L i)),
            Txt = i\<rparr>)"
  using assms by (simp add: FlexTemp_UnmarshalJSON_def SplitN_two Let_def)

text \<open>
  C2. The claim is that the JSON string \<^verbatim>\<open>"36.5 C"\<close> decodes with \<open>Val\<close> equal to 36.5.
  The code splits the raw token, quotes included, so that the first part is \<^verbatim>\<open>"36.5\<close>
  with its opening quote; \<^verbatim>\<open>ParseFloat\<close> rejects it and \<open>Val\<close> is 0. The decoding
  succeeds and \<open>Txt\<close> is the whole string, as claimed.
\<close>

theorem FlexTemp_unit_suffix_parses_raw_token:
  \<open>FlexTemp_UnmarshalJSON fragment_lib \<lparr>FlexTemp.Val = Finite 20, Txt = ''20''\<rparr> ''"36.5 C"''
     = (None, \<lparr>FlexTemp.Val = Finite 0, Txt = ''36.5 C''\<rparr>) \<and>
   SplitN ''"36.5 C"'' (CHR 0x20) 2 = [''"36.5'', ''C"''] \<and>
   ParseFloat fragment_lib ''"36.5'' = (Finite 0, Some (LibErr ''strconv.ParseFloat: invalid syntax'')) \<and>
   ParseFloat fragment_lib ''36.5'' = (Finite 36.5, None)\<close>
proof -
  have j: \<open>json_Unmarshal fragment_lib ''"36.5 C"'' = Inr (String ''36.5 C'')\<close>
    by (simp add: fragment_lib_def scalar_json_def json_plain_string_def plain_char_def)
  have s: \<open>SplitN ''"36.5 C"'' (CHR 0x20) 2 = [''"36.5'', ''C"'']\<close>
    by (simp add: SplitN_two)
  have p: \<open>ParseFloat fragment_lib ''"36.5'' = (Finite 0, Some (LibErr ''strconv.ParseFloat: invalid syntax''))\<close>
    by (simp add: ParseFloat_def fragment_lib_def scan_simps)
  have q: \<open>ParseFloat fragment_lib ''36.5'' = (Finite 36.5, None)\<close>
    by (simp add: ParseFloat_def fragment_lib_def scan_simps)
  show ?thesis
    using FlexTemp_string_input [OF j, of "\<lparr>FlexTemp.Val = Finite 20, Txt = ''20''\<rparr>"] s p q
    by simp
qed

text \<open>
  C7, as stated, fails. The string \<^verbatim>\<open>1e999\<close> is not parseable as a \<^verbatim>\<open>float64\<close>:
  \<^verbatim>\<open>strconv.ParseFloat\<close> fails on it with \<^verbatim>\<open>ErrRange\<close>. The code drops the error and keeps
  the value returned with it, so that \<open>Val\<close> is positive infinity and not 0.
\<close>

theorem FlexInt_out_of_range_counterexample:
  \<open>snd (ParseFloat fragment_lib ''1e999'') = Some (LibErr ''strconv.ParseFloat: value out of range'') \<and>
   FlexInt_UnmarshalJSON fragment_lib \<lparr>FlexInt.Val = Finite 7, Txt = ''7''\<rparr> ''"1e999"''
     = (None, \<lparr>FlexInt.Val = PosInf, Txt = ''1e999''\<rparr>) \<and>
   PosInf \<noteq> Finite 0\<close>
  by (simp add: FlexInt_UnmarshalJSON_def ParseFloat_def fragment_lib_def scalar_json_def
      json_plain_string_def plain_char_def scan_simps)

text \<open>
  C7, amended. For every input that is a JSON string denoting \<open>s\<close>,
  \<open>FlexInt_UnmarshalJSON\<close> returns no error, sets \<open>Txt\<close> to \<open>s\<close> and sets \<open>Val\<close> to the
  value that \<^verbatim>\<open>strconv.ParseFloat\<close> returns for \<open>s\<close>, whether or not it also returns an
  error: the parsed \<^verbatim>\<open>float64\<close> when \<open>s\<close> is well formed and in range (an infinity or
  NaN when \<open>s\<close> spells one), 0 when \<open>s\<close> is not well formed, and the infinity of its sign
  when \<open>s\<close> is a well-formed numeral too large for a \<^verbatim>\<open>float64\<close>.
\<close>

theorem FlexInt_string_input:
  assumes "json_Unmarshal L b = Inr (String s)"
  shows "fst (FlexInt_UnmarshalJSON L f b) = None \<and>
         FlexInt.Txt (snd (FlexInt_UnmarshalJSON L f b)) = s \<and>
         FlexInt.Val (snd (FlexInt_UnmarshalJSON L f b)) = fst (ParseFloat L s) \<and>
         fst (ParseFloat L s) =
           (case scan_float L s of
              Parsed v \<Rightarrow> v
            | OutOfRange negative \<Rightarrow> (if negative then NegInf else PosInf)
            | Malformed \<Rightarrow> Finite 0)"
  using assms by (simp add: FlexInt_UnmarshalJSON_def ParseFloat_def split: scan.splits)

theorem FlexInt_string_input_witness:
  \<open>json_Unmarshal fragment_lib ''"12.5"'' = Inr (String ''12.5'') \<and>
   scan_float fragment_lib ''12.5'' = Parsed (Finite 12.5) \<and>
   FlexInt_UnmarshalJSON fragment_lib \<lparr>FlexInt.Val = Finite 7, Txt = ''7''\<rparr> ''"12.5"''
     = (None, \<lparr>FlexInt.Val = Finite 12.5, Txt = ''12.5''\<rparr>) \<and>
   json_Unmarshal fragment_lib ''"n/a"'' = Inr (String ''n/a'') \<and>
   scan_float fragment_lib ''n/a'' = Malformed \<and>
   FlexInt_UnmarshalJSON fragment_lib \<lparr>FlexInt.Val = Finite 7, Txt = ''7''\<rparr> ''"n/a"''
     = (None, \<lparr>FlexInt.Val = Finite 0, Txt = ''n/a''\<rparr>) \<and>
   json_Unmarshal fragment_lib ''"-1e999"'' = Inr (String ''-1e999'') \<and>
   scan_float fragment_lib ''-1e999'' = OutOfRange True \<and>
   FlexInt_UnmarshalJSON fragment_lib \<lparr>FlexInt.Val = Finite 7, Txt = ''7''\<rparr> ''"-1e999"''
     = (None, \<lparr>FlexInt.Val = NegInf, Txt = ''-1e999''\<rparr>) \<and>
   json_Unmarshal fragment_lib ''"NaN"'' = Inr (String ''NaN'') \<and>
   scan_float fragment_lib ''NaN'' = Parsed NaN \<and>
   FlexInt_UnmarshalJSON fragment_lib \<lparr>FlexInt.Val = Finite 7, Txt = ''7''\<rparr> ''"NaN"''
     = (None, \<lparr>FlexInt.Val = NaN, Txt = ''NaN''\<rparr>)\<close>
proof -
  have j1: \<open>json_Unmarshal fragment_lib ''"12.5"'' = Inr (String ''12.5'')\<close>
    by (simp add: fragment_lib_def scalar_json_def json_plain_string_def plain_char_def)
  have j2: \<open>json_Unmarshal fragment_lib ''"n/a"'' = Inr (String ''n/a'')\<close>
    by (simp add: fragment_lib_def scalar_json_def json_plain_string_def plain_char_def)
  have j3: \<open>json_Unmarshal fragment_lib ''"-1e999"'' = Inr (String ''-1e999'')\<close>
    by (simp add: fragment_lib_def scalar_json_def json_plain_string_def plain_char_def)
  have j4: \<open>json_Unmarshal fragment_lib ''"NaN"'' = Inr (String ''NaN'')\<close>
    by (simp add: fragment_lib_def scalar_json_def json_plain_string_def plain_char_def)
  have s1: \<open>scan_float fragment_lib ''12.5'' = Parsed (Finite 12.5)\<close>
    by (simp add: fragment_lib_def scan_simps)
  have s2: \<open>scan_float fragment_lib ''n/a'' = Malformed\<close>
    by (simp add: fragment_lib_def scan_simps)
  have s3: \<open>scan_float fragment_lib ''-1e999'' = OutOfRange True\<close>
    by (simp add: fragment_lib_def scan_simps)
  have s4: \<open>scan_float fragment_lib ''NaN'' = Parsed NaN\<close>
    by (simp add: fragment_lib_def scan_simps)
  show ?thesis
    using FlexInt_string_input [OF j1, of "\<lparr>FlexInt.Val = Finite 7, Txt = ''7''\<rparr>"]
      FlexInt_string_input [OF j2, of "\<lparr>FlexInt.Val = Finite 7, Txt = ''7''\<rparr>"]
      FlexInt_string_input [OF j3, of "\<lparr>FlexInt.Val = Finite 7, Txt = ''7''\<rparr>"]
      FlexInt_string_input [OF j4, of "\<lparr>FlexInt.Val = Finite 7, Txt = ''7''\<rparr>"]
      j1 j2 j3 j4 s1 s2 s3 s4
    by (simp add: prod_eq_iff FlexInt.equality)
qed

section \<open>Order of the two decoding attempts\<close>

lemma decode_Bytes_10:
  "decode_Bytes ''10'' zero_Ap_cut = (None, zero_Ap_cut\<lparr>Bytes := \<lparr>FlexInt.Val = Finite 10, Txt = ''10''\<rparr>\<rparr>)"
  by (simp add: decode_Bytes_def FlexInt_UnmarshalJSON_def fragment_lib_def scalar_json_def
      json_plain_string_def json_number_def is_digit_def digits_val_def whole_format_def
      zero_Ap_cut_def show_nat.simps)

text \<open>
  C3, as stated, fails on both counts. On the body \<^verbatim>\<open>[]\<close> both attempts fail, and the
  error returned is the one of the envelope attempt, not the one of the direct (flat)
  attempt. On the flat body \<^verbatim>\<open>{"bytes":10}\<close> the envelope attempt would succeed (it skips
  the unknown key and leaves the record at its zero value), yet the result is the flat
  decoding with \<^verbatim>\<open>Bytes\<close> equal to 10: the flat attempt runs first and the envelope
  attempt is not consulted.
\<close>

theorem UAPStat_nested_first_counterexample:
  \<open>fst (table_Unmarshal_Ap ''[]'' zero_Ap_cut) \<noteq> None \<and>
   fst (table_Unmarshal_n ''[]'' zero_Ap_cut) \<noteq> None \<and>
   fst (UAPStat_UnmarshalJSON table_Unmarshal_Ap table_Unmarshal_n zero_Ap_cut \<lparr>Ap = None\<rparr> ''[]'')
     = fst (table_Unmarshal_n ''[]'' zero_Ap_cut) \<and>
   fst (UAPStat_UnmarshalJSON table_Unmarshal_Ap table_Unmarshal_n zero_Ap_cut \<lparr>Ap = None\<rparr> ''[]'')
     \<noteq> fst (table_Unmarshal_Ap ''[]'' zero_Ap_cut) \<and>
   table_Unmarshal_n ''{"bytes":10}'' zero_Ap_cut = (None, zero_Ap_cut) \<and>
   UAPStat_UnmarshalJSON table_Unmarshal_Ap table_Unmarshal_n zero_Ap_cut \<lparr>Ap = None\<rparr> ''{"bytes":10}''
     = (None, \<lparr>Ap = Some (zero_Ap_cut\<lparr>Bytes := \<lparr>FlexInt.Val = Finite 10, Txt = ''10''\<rparr>\<rparr>)\<rparr>) \<and>
   zero_Ap_cut\<lparr>Bytes := \<lparr>FlexInt.Val = Finite 10, Txt = ''10''\<rparr>\<rparr> \<noteq> zero_Ap_cut\<close>
  by (simp add: UAPStat_UnmarshalJSON_def table_Unmarshal_Ap_def table_Unmarshal_n_def
      decode_Bytes_10) (simp add: zero_Ap_cut_def)

text \<open>
  C3, amended. \<open>UAPStat_UnmarshalJSON\<close> first attempts to decode the body directly as
  the flat record; when that succeeds, its result is the outcome and the envelope shape
  is not tried. Only when the flat attempt fails does it decode the body as the envelope
  \<^verbatim>\<open>{"ap": {...}}\<close>, into the same record, and the outcome of that attempt is returned:
  when both attempts fail, the error surfaced is the one of the envelope attempt.
\<close>

theorem UAPStat_flat_first:
  "(fst (Unmarshal_Ap data zero_Ap) = None \<longrightarrow>
      UAPStat_UnmarshalJSON Unmarshal_Ap Unmarshal_n zero_Ap v data
        = (None, v\<lparr>Ap := Some (snd (Unmarshal_Ap data zero_Ap))\<rparr>)) \<and>
   (fst (Unmarshal_Ap data zero_Ap) \<noteq> None \<longrightarrow>
      UAPStat_UnmarshalJSON Unmarshal_Ap Unmarshal_n zero_Ap v data
        = (fst (Unmarshal_n data (snd (Unmarshal_Ap data zero_Ap))),
           v\<lparr>Ap := Some (snd (Unmarshal_n data (snd (Unmarshal_Ap data zero_Ap))))\<rparr>))"
  by (simp add: UAPStat_UnmarshalJSON_def split_beta)

theorem UAPStat_flat_first_witness:
  \<open>UAPStat_UnmarshalJSON table_Unmarshal_Ap table_Unmarshal_n zero_Ap_cut \<lparr>Ap = None\<rparr> ''{"bytes":10}''
     = (None, \<lparr>Ap = Some (zero_Ap_cut\<lparr>Bytes := \<lparr>FlexInt.Val = Finite 10, Txt = ''10''\<rparr>\<rparr>)\<rparr>) \<and>
   fst (table_Unmarshal_Ap ''{"ap":{"bytes":10}}'' zero_Ap_cut) \<noteq> None \<and>
   UAPStat_UnmarshalJSON table_Unmarshal_Ap table_Unmarshal_n zero_Ap_cut \<lparr>Ap = None\<rparr> ''{"ap":{"bytes":10}}''
     = (None, \<lparr>Ap = Some (zero_Ap_cut\<lparr>Bytes := \<lparr>FlexInt.Val = Finite 10, Txt = ''10''\<rparr>\<rparr>)\<rparr>) \<and>
   fst (table_Unmarshal_Ap ''[]'' zero_Ap_cut) \<noteq> None \<and>
   UAPStat_UnmarshalJSON table_Unmarshal_Ap table_Unmarshal_n zero_Ap_cut \<lparr>Ap = None\<rparr> ''[]''
     = (Some (LibErr ''json: cannot unmarshal array into struct { unifi.Ap }''), \<lparr>Ap = Some zero_Ap_cut\<rparr>)\<close>
proof -
  have flat: \<open>table_Unmarshal_Ap ''{"bytes":10}'' zero_Ap_cut
      = (None, zero_Ap_cut\<lparr>Bytes := \<lparr>FlexInt.Val = Finite 10, Txt = ''10''\<rparr>\<rparr>)\<close>
    by (simp add: table_Unmarshal_Ap_def decode_Bytes_10)
  have env1: \<open>table_Unmarshal_Ap ''{"ap":{"bytes":10}}'' zero_Ap_cut
      = (Some (LibErr ''json: cannot unmarshal object into Ap.ap of type string''), zero_Ap_cut)\<close>
    by (simp add: table_Unmarshal_Ap_def)
  have env2: \<open>table_Unmarshal_n ''{"ap":{"bytes":10}}'' zero_Ap_cut
      = (None, zero_Ap_cut\<lparr>Bytes := \<lparr>FlexInt.Val = Finite 10, Txt = ''10''\<rparr>\<rparr>)\<close>
    by (simp add: table_Unmarshal_n_def decode_Bytes_10)
  have arr1: \<open>table_Unmarshal_Ap ''[]'' zero_Ap_cut
      = (Some (LibErr ''json: cannot unmarshal array into unifi.Ap''), zero_Ap_cut)\<close>
    by (simp add: table_Unmarshal_Ap_def)
  have arr2: \<open>table_Unmarshal_n ''[]'' zero_Ap_cut
      = (Some (LibErr ''json: cannot unmarshal array into struct { unifi.Ap }''), zero_Ap_cut)\<close>
    by (simp add: table_Unmarshal_n_def)
  show ?thesis
    using UAPStat_flat_first [of table_Unmarshal_Ap \<open>''{"bytes":10}''\<close> zero_Ap_cut table_Unmarshal_n
        "\<lparr>Ap = None\<rparr>"]
      UAPStat_flat_first [of table_Unmarshal_Ap \<open>''{"ap":{"bytes":10}}''\<close> zero_Ap_cut table_Unmarshal_n
        "\<lparr>Ap = None\<rparr>"]
      UAPStat_flat_first [of table_Unmarshal_Ap \<open>''[]''\<close> zero_Ap_cut table_Unmarshal_n
        "\<lparr>Ap = None\<rparr>"]
    by (simp add: flat env1 env2 arr1 arr2)
qed

end
